theory Spec2Isabelle
  imports Main "HOL-Library.Sublist"
begin

section \<open>Python strings and paths\<close>

text \<open>
  Strings are \<open>char list\<close>. \<open>startswith p s\<close> is \<open>s.startswith(p)\<close>, which is also
  what \<open>re.match\<close> decides for the two patterns of \<open>parse_tabular\<close>: \<open>Unnamed.*\<close> and
  \<open>#.*\<close> match exactly the strings that start with \<open>Unnamed\<close> and with \<open>#\<close>.
  \<open>contains p s\<close> is \<open>p in s\<close>.
\<close>

definition startswith :: "string \<Rightarrow> string \<Rightarrow> bool" where
  "startswith p s = (take (length p) s = p)"

fun contains :: "string \<Rightarrow> string \<Rightarrow> bool" where
  "contains p [] = (p = [])"
| "contains p (c # cs) = (startswith p (c # cs) \<or> contains p cs)"

text \<open>\<open>str_join sep xs\<close> is \<open>sep.join(xs)\<close>.\<close>

fun str_join :: "string \<Rightarrow> string list \<Rightarrow> string" where
  "str_join sep [] = []"
| "str_join sep [x] = x"
| "str_join sep (x # y # ys) = x @ sep @ str_join sep (y # ys)"

text \<open>\<open>split_bars acc s\<close> is \<open>s.split("||")\<close>, \<open>acc\<close> holding the current piece reversed.\<close>

fun split_bars :: "string \<Rightarrow> string \<Rightarrow> string list" where
  "split_bars acc [] = [rev acc]"
| "split_bars acc (c # cs) =
     (case cs of
        d # ds \<Rightarrow>
          (if c = CHR ''|'' \<and> d = CHR ''|''
           then rev acc # split_bars [] ds
           else split_bars (c # acc) cs)
      | [] \<Rightarrow> split_bars (c # acc) cs)"

definition split :: "string \<Rightarrow> string list" where
  "split h = split_bars [] h"

text \<open>Decimal rendering of a position, for \<open>f"Unnamed: {i}"\<close>.\<close>

definition digit :: "nat \<Rightarrow> char" where
  "digit d = char_of (48 + d)"

function str_nat :: "nat \<Rightarrow> string" where
  "str_nat n = (if n < 10 then [digit n] else str_nat (n div 10) @ [digit (n mod 10)])"
  by pat_completeness auto
termination
  by (relation "measure id") auto

text \<open>\<open>os.path.join\<close>, \<open>basename\<close> and \<open>dirname\<close> of posixpath.\<close>

definition join :: "string \<Rightarrow> string \<Rightarrow> string" where
  "join a b =
     (if startswith ''/'' b then b
      else if a = [] \<or> last a = CHR ''/'' then a @ b
      else a @ ''/'' @ b)"

definition basename :: "string \<Rightarrow> string" where
  "basename p = rev (takeWhile (\<lambda>c. c \<noteq> CHR ''/'') (rev p))"

definition dirname :: "string \<Rightarrow> string" where
  "dirname p =
     (let head = rev (dropWhile (\<lambda>c. c \<noteq> CHR ''/'') (rev p))
      in if head \<noteq> [] \<and> \<not> list_all (\<lambda>c. c = CHR ''/'') head
         then rev (dropWhile (\<lambda>c. c = CHR ''/'') (rev head))
         else head)"

section \<open>Tables\<close>

text \<open>
  A cell of a DataFrame is missing (\<open>NaN\<close>), a Python \<open>str\<close>, or any other scalar (a
  number of a spreadsheet cell, say), of which the model keeps what the code observes:
  its truth value, its \<open>str()\<close>, and the \<open>str()\<close> of what the row \<open>df.loc[0]\<close> of line 95
  holds in its place. The two differ where pandas casts that row to a common dtype: an
  int \<open>2020\<close> beside a float column is \<open>2020.0\<close> in the row. \<open>NaN\<close> is truthy and prints
  as \<open>nan\<close>.
\<close>

datatype cell = NaN | Str string | Num bool string string

fun isna :: "cell \<Rightarrow> bool" where
  "isna NaN = True"
| "isna _ = False"

fun truthy :: "cell \<Rightarrow> bool" where
  "truthy NaN = True"
| "truthy (Str s) = (s \<noteq> [])"
| "truthy (Num b s r) = b"

fun py_str :: "cell \<Rightarrow> string" where
  "py_str NaN = ''nan''"
| "py_str (Str s) = s"
| "py_str (Num b s r) = s"

fun row_str :: "cell \<Rightarrow> string" where
  "row_str NaN = ''nan''"
| "row_str (Str s) = s"
| "row_str (Num b s r) = r"

fun is_str :: "cell \<Rightarrow> bool" where
  "is_str (Str s) = True"
| "is_str _ = False"

text \<open>
  The dtype of a column, as far as the code asks: \<open>object\<close>, pandas' \<open>string\<close>, or
  anything else (\<open>int64\<close>, \<open>float64\<close>, ...).
\<close>

datatype dtype = DObject | DString | DOther

text \<open>
  A DataFrame is the list of its columns, left to right, each with its label (by its
  \<open>str()\<close>, so that line 93 of \<open>parse_tabular\<close> is the identity), its dtype and its
  cells, top to bottom, under the positional index \<open>0, 1, ...\<close>.
\<close>

record column =
  label :: string
  dtype :: dtype
  cells :: "cell list"

type_synonym table = "column list"

definition nrows :: "table \<Rightarrow> nat" where
  "nrows df = (case df of [] \<Rightarrow> 0 | c # _ \<Rightarrow> length (cells c))"


definition row :: "table \<Rightarrow> nat \<Rightarrow> cell list" where
  "row df i = map (\<lambda>c. cells c ! i) df"

definition drop_rows :: "nat \<Rightarrow> table \<Rightarrow> table" where
  "drop_rows n df = map (\<lambda>c. c\<lparr>cells := drop n (cells c)\<rparr>) df"

datatype error = KeyError | TypeError | AttributeError | ValueError | LayerError

section \<open>The header normalizer: \<open>parse_tabular\<close>\<close>

text \<open>
  \<open>dropna(how="all", axis=0)\<close> keeps the rows with a cell that is not missing,
  \<open>dropna(how="all", axis=1)\<close> the columns with one; a column of no rows has none.
\<close>

definition dropna_rows :: "table \<Rightarrow> table" where
  "dropna_rows df =
     (let keep = filter (\<lambda>i. list_ex (\<lambda>x. \<not> isna x) (row df i)) [0..<nrows df]
      in map (\<lambda>c. c\<lparr>cells := map (\<lambda>i. cells c ! i) keep\<rparr>) df)"

definition dropna_cols :: "table \<Rightarrow> table" where
  "dropna_cols df = filter (\<lambda>c. list_ex (\<lambda>x. \<not> isna x) (cells c)) df"

text \<open>
  Lines 94 to 96: when every label starts with \<open>Unnamed\<close> (also when there is no column
  at all), row 0 becomes the header; \<open>df.loc[0]\<close> raises \<open>KeyError\<close> on a table of no rows.
\<close>

definition header_from_row0 :: "table \<Rightarrow> error + table" where
  "header_from_row0 df =
     (if list_all (\<lambda>c. startswith ''Unnamed'' (label c)) df then
        (if nrows df = 0 then Inl KeyError
         else Inr (map (\<lambda>(i, c).
                c\<lparr>label := (if \<not> isna (cells c ! 0) then row_str (cells c ! 0)
                            else ''Unnamed: '' @ str_nat i),
                  cells := drop 1 (cells c)\<rparr>) (enumerate 0 df)))
      else Inr df)"

text \<open>
  Lines 101 to 107. \<open>hxltags df i\<close> is the list the loop builds for row \<open>i\<close>; all
  columns are of object dtype here, so that the row holds the cells as they are. The
  loop goes on while \<open>not hxlrow\<close>, which holds for \<open>None\<close> and for the index \<open>0\<close>.
\<close>

definition hxltags :: "table \<Rightarrow> nat \<Rightarrow> bool list" where
  "hxltags df i = map (\<lambda>t. if t \<noteq> [] then startswith ''#'' t else True) (map py_str (row df i))"

fun truthy_idx :: "nat option \<Rightarrow> bool" where
  "truthy_idx None = False"
| "truthy_idx (Some n) = (n \<noteq> 0)"

function hxl_scan :: "table \<Rightarrow> nat \<Rightarrow> nat option \<Rightarrow> nat option" where
  "hxl_scan df i hxlrow =
     (if i < 10 \<and> i < nrows df \<and> \<not> truthy_idx hxlrow
      then hxl_scan df (i + 1) (if list_all id (hxltags df i) then Some i else hxlrow)
      else hxlrow)"
  by pat_completeness auto
termination
  by (relation "measure (\<lambda>(df, i, h). 10 - i)") auto

declare hxl_scan.simps [simp del]

text \<open>
  \<open>df[c][:n]\<close>, iterated. With one column labelled \<open>c\<close> it is that column's first \<open>n\<close>
  cells; with several, \<open>df[c]\<close> is a DataFrame, and iterating it gives its labels.
\<close>

definition getitem :: "table \<Rightarrow> string \<Rightarrow> column list" where
  "getitem df c = filter (\<lambda>d. label d = c) df"

definition head_cells :: "table \<Rightarrow> string \<Rightarrow> nat \<Rightarrow> cell list" where
  "head_cells df c n =
     (case getitem df c of
        [d] \<Rightarrow> take n (cells d)
      | ds \<Rightarrow> map (\<lambda>d. Str (label d)) ds)"

text \<open>
  Lines 109 to 114: the cells are joined as they are, and \<open>"||".join\<close> raises
  \<open>TypeError\<close> on an item that is not a \<open>str\<close>.
\<close>

definition hxl_label :: "table \<Rightarrow> nat \<Rightarrow> string \<Rightarrow> error + string" where
  "hxl_label df hxlrow c =
     (let cols = filter truthy (head_cells df c (hxlrow + 1));
          cols = (if \<not> contains ''Unnamed'' c then Str c # cols else cols)
      in if list_all is_str cols then Inr (str_join ''||'' (map py_str cols))
         else Inl TypeError)"

fun sequence :: "(error + 'a) list \<Rightarrow> error + 'a list" where
  "sequence [] = Inr []"
| "sequence (x # xs) =
     (case x of
        Inl e \<Rightarrow> Inl e
      | Inr v \<Rightarrow> (case sequence xs of Inl e \<Rightarrow> Inl e | Inr vs \<Rightarrow> Inr (v # vs)))"

definition set_labels :: "string list \<Rightarrow> table \<Rightarrow> table" where
  "set_labels ls df = map (\<lambda>(l, c). c\<lparr>label := l\<rparr>) (zip ls df)"

text \<open>Lines 126 to 130: here every kept cell goes through \<open>str()\<close>.\<close>

definition composite_label :: "table \<Rightarrow> nat \<Rightarrow> string \<Rightarrow> string" where
  "composite_label df datarow c =
     (let cols = map py_str (filter truthy (head_cells df c datarow));
          cols = (if \<not> contains ''Unnamed'' c then c # cols else cols)
      in str_join ''||'' cols)"

text \<open>
  \<open>parse_tail\<close> is lines 97 to 133, on the table that lines 92 to 96 leave;
  \<open>parse_tabular\<close> is the whole function. \<open>the hxlrow\<close> is read where \<open>hxlrow\<close> is truthy
  only, hence an index.
\<close>

definition parse_tail :: "table \<Rightarrow> string \<Rightarrow> error + table" where
  "parse_tail df fileext =
     (if \<not> list_all (\<lambda>c. dtype c = DObject) df then Inr df
      else if nrows df = 1 then Inr df
      else
        let hxlrow = hxl_scan df 0 None in
        if truthy_idx hxlrow then
          (case sequence (map (\<lambda>c. hxl_label df (the hxlrow) (label c)) df) of
             Inl e \<Rightarrow> Inl e
           | Inr columns \<Rightarrow> Inr (drop_rows (the hxlrow + 1) (set_labels columns df)))
        else if fileext = ''csv'' \<and> \<not> truthy_idx hxlrow then Inr df
        else
          let datarow = 3;
              datarow = (if truthy_idx hxlrow then the hxlrow + 1 else datarow);
              datarow = (if nrows df < 3 then nrows df else datarow);
              columns = map (\<lambda>c. composite_label df datarow (label c)) df
          in Inr (drop_rows datarow (set_labels columns df)))"

definition parse_tabular :: "table \<Rightarrow> string \<Rightarrow> error + table" where
  "parse_tabular df fileext =
     (case header_from_row0 (dropna_cols (dropna_rows df)) of
        Inl e \<Rightarrow> Inl e
      | Inr df' \<Rightarrow> parse_tail df' fileext)"

section \<open>The classifiers\<close>

text \<open>
  The regular expressions are matched by Python's \<open>re\<close>, and the value patterns come from
  the country table and from \<open>hxl.geo\<close>, none of which is part of the repository. Each
  pattern enters the model as the predicate it decides on a string:
  \<open>header_exp M head\<close> is \<open>bool(re.match(header_exp, head, re.IGNORECASE))\<close>,
  \<open>pcode_exp M v\<close> is what \<open>str.match(pcode_exp, case=False)\<close> gives for the string \<open>v\<close>,
  and \<open>LAT_PATTERNS M\<close>, \<open>LON_PATTERNS M\<close> are the lists of the library, one predicate for
  each pattern. With them comes what pandas decides before it matches at all:
  \<open>str_accessor M column\<close> tells whether the Series \<open>column\<close> has a \<open>.str\<close>, which pandas
  settles by inferring the kind of its values (strings, none at all and some mixtures
  have it, numbers alone have not).
\<close>

record matchers =
  str_accessor :: "cell list \<Rightarrow> bool"
  header_exp :: "string \<Rightarrow> bool"
  pcode_exp :: "string \<Rightarrow> bool"
  lat_header_exp :: "string \<Rightarrow> bool"
  lon_header_exp :: "string \<Rightarrow> bool"
  LAT_PATTERNS :: "(string \<Rightarrow> bool) list"
  LON_PATTERNS :: "(string \<Rightarrow> bool) list"

text \<open>
  A sample collection is a \<open>dict\<close> from fresh keys to tables, in insertion order:
  a list of pairs, and \<open>for key in contents: contents[key]\<close> walks the pairs.
\<close>

type_synonym samples = "(string \<times> table) list"

text \<open>The flags \<open>pcoded\<close>, \<open>latted\<close>, ... are \<open>None\<close>, \<open>True\<close> or \<open>False\<close>.\<close>

fun truthy_flag :: "bool option \<Rightarrow> bool" where
  "truthy_flag (Some b) = b"
| "truthy_flag None = False"

definition dropna :: "column \<Rightarrow> cell list" where
  "dropna c = filter (\<lambda>x. \<not> isna x) (cells c)"

definition select_dtypes :: "table \<Rightarrow> table" where
  "select_dtypes content = filter (\<lambda>c. dtype c = DString \<or> dtype c = DObject) content"

subsection \<open>\<open>check_pcoded\<close>\<close>

text \<open>
  \<open>column.str.match\<close> gives \<open>True\<close> or \<open>False\<close> for a string and \<open>NaN\<close> (here \<open>None\<close>)
  for any other value; the builtin \<open>sum\<close> adds them up from \<open>0\<close>, and a sum with a
  \<open>NaN\<close> in it is \<open>NaN\<close>.
\<close>

fun str_match :: "(string \<Rightarrow> bool) \<Rightarrow> cell \<Rightarrow> bool option" where
  "str_match p (Str s) = Some (p s)"
| "str_match p _ = None"

fun py_sum :: "nat option \<Rightarrow> bool option list \<Rightarrow> nat option" where
  "py_sum acc [] = acc"
| "py_sum acc (v # vs) =
     py_sum (case (acc, v) of
               (Some n, Some b) \<Rightarrow> Some (n + (if b then 1 else 0))
             | _ \<Rightarrow> None) vs"

text \<open>
  Lines 155 to 157 for a column that is a Series. \<open>column.str\<close> raises
  \<open>AttributeError\<close> on a column without the accessor. Both comparisons of line 157 are
  false on a \<open>NaN\<close> count.
\<close>

definition pcoded_column :: "matchers \<Rightarrow> column \<Rightarrow> error + bool" where
  "pcoded_column M c =
     (let column = dropna c in
      if \<not> str_accessor M column then Inl AttributeError
      else
        let matches = py_sum (Some 0) (map (str_match (pcode_exp M)) column)
        in Inr (case matches of
                  None \<Rightarrow> False
                | Some m \<Rightarrow> int (length column) - int m \<le> 5 \<and> m > 0))"

text \<open>
  The loop of lines 148 to 158 over the labels. \<open>content[h]\<close> is a Series when one
  column is labelled \<open>h\<close>; otherwise it is a DataFrame, which has no \<open>.str\<close>.
\<close>

fun pcoded_headers :: "matchers \<Rightarrow> table \<Rightarrow> string list \<Rightarrow> bool option \<Rightarrow> error + bool option" where
  "pcoded_headers M content [] pcoded = Inr pcoded"
| "pcoded_headers M content (h # hs) pcoded =
     (if truthy_flag pcoded then Inr pcoded
      else
        let headers = split h;
            pcoded_header = list_ex (header_exp M) headers
        in if \<not> pcoded_header then pcoded_headers M content hs pcoded
           else
             (case getitem content h of
                [c] \<Rightarrow>
                  (case pcoded_column M c of
                     Inl e \<Rightarrow> Inl e
                   | Inr b \<Rightarrow> pcoded_headers M content hs (if b then Some True else pcoded))
              | _ \<Rightarrow> Inl AttributeError))"

fun pcoded_samples :: "matchers \<Rightarrow> samples \<Rightarrow> bool option \<Rightarrow> error + bool option" where
  "pcoded_samples M [] pcoded = Inr pcoded"
| "pcoded_samples M ((key, content) # rest) pcoded =
     (if truthy_flag pcoded then Inr pcoded
      else
        let content = select_dtypes content
        in case pcoded_headers M content (map label content) pcoded of
             Inl e \<Rightarrow> Inl e
           | Inr p \<Rightarrow> pcoded_samples M rest p)"

definition check_pcoded :: "matchers \<Rightarrow> samples \<Rightarrow> error + bool option" where
  "check_pcoded M contents = pcoded_samples M contents None"

subsection \<open>\<open>check_latlong\<close>\<close>

text \<open>
  Lines 183 to 185 (and 188 to 190) on \<open>content[h]\<close>: \<open>concat\<close> raises \<open>ValueError\<close> on an
  empty list of patterns, a DataFrame has no \<open>.str\<close>, and on a Series the values are the
  strings \<open>dropna().astype(str)\<close> leaves, a column that always has the accessor.
\<close>

definition coord_ok :: "(string \<Rightarrow> bool) list \<Rightarrow> string list \<Rightarrow> bool" where
  "coord_ok pats column =
     (let matches = length (filter (\<lambda>v. list_ex (\<lambda>p. p v) pats) column)
      in int (length column) - int matches \<le> 5 \<and> matches > 0)"

definition coord_test :: "(string \<Rightarrow> bool) list \<Rightarrow> column list \<Rightarrow> error + bool" where
  "coord_test pats sel =
     (if pats = [] then Inl ValueError
      else case sel of
             [c] \<Rightarrow> Inr (coord_ok pats (map py_str (dropna c)))
           | _ \<Rightarrow> Inl AttributeError)"

fun latlong_headers ::
  "matchers \<Rightarrow> table \<Rightarrow> string list \<Rightarrow> bool option \<times> bool option \<times> bool option
    \<Rightarrow> error + bool option \<times> bool option \<times> bool option" where
  "latlong_headers M content [] flags = Inr flags"
| "latlong_headers M content (h # hs) (latted, longed, latlonged) =
     (if truthy_flag latlonged then Inr (latted, longed, latlonged)
      else
        let headers = split h;
            lat_header = list_ex (lat_header_exp M) headers;
            lon_header = list_ex (lon_header_exp M) headers
        in if \<not> lat_header \<and> \<not> lon_header
           then latlong_headers M content hs (latted, longed, latlonged)
           else
             (case (if lat_header then coord_test (LAT_PATTERNS M) (getitem content h)
                    else Inr False) of
                Inl e \<Rightarrow> Inl e
              | Inr a \<Rightarrow>
                 (case (if lon_header then coord_test (LON_PATTERNS M) (getitem content h)
                        else Inr False) of
                    Inl e \<Rightarrow> Inl e
                  | Inr b \<Rightarrow>
                      let latted = (if a then Some True else latted);
                          longed = (if b then Some True else longed);
                          latlonged = (if truthy_flag latted \<and> truthy_flag longed
                                       then Some True else latlonged)
                      in latlong_headers M content hs (latted, longed, latlonged))))"

fun latlong_samples :: "matchers \<Rightarrow> samples \<Rightarrow> bool option \<Rightarrow> error + bool option" where
  "latlong_samples M [] latlonged = Inr latlonged"
| "latlong_samples M ((key, content) # rest) latlonged =
     (if truthy_flag latlonged then Inr latlonged
      else
        case latlong_headers M content (map label content) (None, None, latlonged) of
          Inl e \<Rightarrow> Inl e
        | Inr (latted, longed, l) \<Rightarrow> latlong_samples M rest l)"

definition check_latlong :: "matchers \<Rightarrow> samples \<Rightarrow> error + bool option" where
  "check_latlong M contents = latlong_samples M contents None"

section \<open>The world outside\<close>

text \<open>
  A resource has a name and a declared file type; a dataset has its declared file types
  (\<open>get_filetypes()\<close>) and its resources in listing order.
\<close>

record resource =
  name :: string
  file_type :: string

record dataset =
  filetypes :: "string list"
  resources :: "resource list"

text \<open>
  What the code asks of the network, the file system and the readers: \<open>get_uuid E n\<close> is
  the \<open>n\<close>-th identifier \<open>get_uuid()\<close> hands out; \<open>download\<close> gives the local path, or
  \<open>None\<close> when it raises; \<open>extractall E file temp\<close> tells whether the archive unpacks;
  \<open>glob\<close> is the recursive search for a pattern; \<open>listlayers\<close> and the readers give
  \<open>None\<close> when they raise. \<open>read_excel\<close> gives the sheets in order, \<open>read_layer E d l\<close> is
  \<open>read_file(d, layer=l, rows=100)\<close>.
\<close>

record env =
  get_uuid :: "nat \<Rightarrow> string"
  download :: "resource \<Rightarrow> string \<Rightarrow> string option"
  is_zipfile :: "string \<Rightarrow> bool"
  extractall :: "string \<Rightarrow> string \<Rightarrow> bool"
  glob :: "string \<Rightarrow> string list"
  listlayers :: "string \<Rightarrow> string list option"
  read_excel :: "string \<Rightarrow> table list option"
  read_csv :: "string \<Rightarrow> table option"
  read_file :: "string \<Rightarrow> table option"
  read_layer :: "string \<Rightarrow> string \<Rightarrow> table option"

text \<open>
  The effects, in the order they happen, and the number of identifiers drawn so far.
  \<open>mkdir\<close> and \<open>rmtree\<close> are taken to succeed.
\<close>

datatype event =
  Mkdir string
| Download resource string
| Extract string string
| Load string
| Rmtree string

record world =
  drawn :: nat
  events :: "event list"

definition emit :: "event \<Rightarrow> world \<Rightarrow> world" where
  "emit ev w = w\<lparr>events := events w @ [ev]\<rparr>"

definition draw :: "world \<Rightarrow> world" where
  "draw w = w\<lparr>drawn := drawn w + 1\<rparr>"

section \<open>The archive resolver: \<open>download_resource\<close>\<close>

definition drop_containers :: "string list \<Rightarrow> string list" where
  "drop_containers resource_files =
     filter (\<lambda>r. length (filter (\<lambda>rs. contains r rs)
                            (filter (\<lambda>rs. \<not> rs = r) resource_files)) = 0)
            resource_files"

definition expand_layers :: "env \<Rightarrow> string list \<Rightarrow> error + string list" where
  "expand_layers E resource_files =
     (case sequence (map (\<lambda>r. case listlayers E r of
                                None \<Rightarrow> Inl LayerError
                              | Some ls \<Rightarrow> Inr (map (\<lambda>i. join r i) ls)) resource_files) of
        Inl e \<Rightarrow> Inl e
      | Inr rss \<Rightarrow> Inr (concat rss))"

text \<open>Lines 27 to 41, for the archive \<open>resource_file\<close>.\<close>

definition unzip_resource ::
  "env \<Rightarrow> resource \<Rightarrow> string \<Rightarrow> string \<Rightarrow> string \<Rightarrow> world
    \<Rightarrow> (error + string list option \<times> string option) \<times> world" where
  "unzip_resource E resource fileext resource_folder resource_file w =
     (let temp = join resource_folder (get_uuid E (drawn w));
          w = emit (Extract resource_file temp) (draw w)
      in if \<not> extractall E resource_file temp
         then (Inr (None, Some (''Could not unzip resource '' @ name resource)), w)
         else
           let resource_files = glob E (join (join temp ''**'') (''*.'' @ fileext));
               resource_files = (if length resource_files > 1
                                 then drop_containers resource_files
                                 else resource_files);
               resource_files = (if fileext = ''xlsx'' \<and> length resource_files = 0
                                 then [resource_file] else resource_files)
           in if fileext \<in> set [''gdb'', ''gpkg''] then
                (case expand_layers E resource_files of
                   Inl e \<Rightarrow> (Inl e, w)
                 | Inr resource_files \<Rightarrow> (Inr (Some resource_files, None), w))
              else (Inr (Some resource_files, None), w))"

definition download_resource ::
  "env \<Rightarrow> resource \<Rightarrow> string \<Rightarrow> string \<Rightarrow> world
    \<Rightarrow> (error + string list option \<times> string option) \<times> world" where
  "download_resource E resource fileext resource_folder w =
     (let w = emit (Download resource resource_folder) w in
      case download E resource resource_folder of
        None \<Rightarrow> (Inr (None, Some (''Could not download file '' @ name resource)), w)
      | Some resource_file \<Rightarrow>
          if is_zipfile E resource_file \<or> contains ''.zip'' (basename resource_file)
          then unzip_resource E resource fileext resource_folder resource_file w
          else (Inr (Some [resource_file], None), w))"

section \<open>The sampled table loader: \<open>read_downloaded_data\<close>\<close>

text \<open>\<open>data[k] = v\<close> on a \<open>dict\<close> in insertion order.\<close>

fun dict_set :: "('k \<times> 'v) list \<Rightarrow> 'k \<Rightarrow> 'v \<Rightarrow> ('k \<times> 'v) list" where
  "dict_set [] k v = [(k, v)]"
| "dict_set ((k', v') # kvs) k v =
     (if k' = k then (k, v) # kvs else (k', v') # dict_set kvs k v)"

definition empty_df :: "table \<Rightarrow> bool" where
  "empty_df df = (df = [] \<or> nrows df = 0)"

definition unable :: "string \<Rightarrow> string" where
  "unable resource_file = ''Unable to read resource '' @ basename resource_file"

text \<open>
  Lines 60 to 63: \<open>parse_tabular\<close> is called outside the \<open>try\<close>, so what it raises
  leaves \<open>read_downloaded_data\<close>. The value is computed before the key is drawn.
\<close>

fun read_sheets :: "env \<Rightarrow> string \<Rightarrow> table list \<Rightarrow> samples \<Rightarrow> world \<Rightarrow> (error + samples) \<times> world" where
  "read_sheets E fileext [] data w = (Inr data, w)"
| "read_sheets E fileext (sheet # rest) data w =
     (if empty_df sheet then read_sheets E fileext rest data w
      else
        case parse_tabular sheet fileext of
          Inl e \<Rightarrow> (Inl e, w)
        | Inr df \<Rightarrow> read_sheets E fileext rest (dict_set data (get_uuid E (drawn w)) df) (draw w))"

text \<open>
  The loop of lines 51 to 86, \<open>read_one\<close> being one pass of its body. The four tests
  on \<open>fileext\<close> exclude one another, so that one pass takes one branch (or none):
  \<open>read_spreadsheet\<close> is lines 53 to 63, \<open>read_delimited\<close> lines 65 to 70, and
  \<open>read_geo\<close> lines 72 to 78 and 80 to 86, which differ in the call of \<open>read_file\<close>
  alone. There the key of the \<open>dict\<close> display is drawn before the file is read, and
  \<open>data\<close> is assigned anew.
\<close>

definition read_spreadsheet ::
  "env \<Rightarrow> string \<Rightarrow> string \<Rightarrow> samples \<times> string option \<Rightarrow> world
    \<Rightarrow> (error + samples \<times> string option) \<times> world" where
  "read_spreadsheet E fileext resource_file acc w =
     (case acc of (data, error) \<Rightarrow>
        case read_excel E resource_file of
          None \<Rightarrow> (Inr (data, Some (unable resource_file)), emit (Load resource_file) w)
        | Some contents \<Rightarrow>
            (case read_sheets E fileext contents data (emit (Load resource_file) w) of
               (Inl e, w) \<Rightarrow> (Inl e, w)
             | (Inr data, w) \<Rightarrow> (Inr (data, error), w)))"

definition read_delimited ::
  "env \<Rightarrow> string \<Rightarrow> string \<Rightarrow> samples \<times> string option \<Rightarrow> world
    \<Rightarrow> (error + samples \<times> string option) \<times> world" where
  "read_delimited E fileext resource_file acc w =
     (case acc of (data, error) \<Rightarrow>
        case read_csv E resource_file of
          None \<Rightarrow> (Inr (data, Some (unable resource_file)), emit (Load resource_file) w)
        | Some contents \<Rightarrow>
            (case parse_tabular contents fileext of
               Inl e \<Rightarrow> (Inr (data, Some (unable resource_file)), emit (Load resource_file) w)
             | Inr df \<Rightarrow>
                 (Inr (dict_set data (get_uuid E (drawn w)) df, error),
                  draw (emit (Load resource_file) w))))"

definition read_geo ::
  "table option \<Rightarrow> env \<Rightarrow> string \<Rightarrow> samples \<times> string option \<Rightarrow> world
    \<Rightarrow> (error + samples \<times> string option) \<times> world" where
  "read_geo read E resource_file acc w =
     (case acc of (data, error) \<Rightarrow>
        case read of
          None \<Rightarrow> (Inr (data, Some (unable resource_file)), emit (Load resource_file) (draw w))
        | Some df \<Rightarrow>
            (Inr ([(get_uuid E (drawn w), df)], error), emit (Load resource_file) (draw w)))"

definition read_one ::
  "env \<Rightarrow> string \<Rightarrow> string \<Rightarrow> samples \<times> string option \<Rightarrow> world
    \<Rightarrow> (error + samples \<times> string option) \<times> world" where
  "read_one E fileext resource_file acc w =
     (if fileext \<in> set [''xlsx'', ''xls''] then read_spreadsheet E fileext resource_file acc w
      else if fileext = ''csv'' then read_delimited E fileext resource_file acc w
      else if fileext \<in> set [''geojson'', ''json'', ''shp'', ''topojson'']
      then read_geo (read_file E resource_file) E resource_file acc w
      else if fileext \<in> set [''gdb'', ''gpkg'']
      then read_geo (read_layer E (dirname resource_file) (basename resource_file))
             E resource_file acc w
      else (Inr acc, w))"

fun read_files ::
  "env \<Rightarrow> string \<Rightarrow> string list \<Rightarrow> samples \<times> string option \<Rightarrow> world
    \<Rightarrow> (error + samples \<times> string option) \<times> world" where
  "read_files E fileext [] acc w = (Inr acc, w)"
| "read_files E fileext (resource_file # rest) acc w =
     (case read_one E fileext resource_file acc w of
        (Inl e, w) \<Rightarrow> (Inl e, w)
      | (Inr acc, w) \<Rightarrow> read_files E fileext rest acc w)"

definition read_downloaded_data ::
  "env \<Rightarrow> string list \<Rightarrow> string \<Rightarrow> world \<Rightarrow> (error + samples \<times> string option) \<times> world" where
  "read_downloaded_data E resource_files fileext w = read_files E fileext resource_files ([], None) w"

section \<open>The orchestrator: \<open>check_location\<close>\<close>

definition allowed_filetypes :: "string list" where
  "allowed_filetypes = [''csv'', ''geodatabase'', ''geojson'', ''geopackage'', ''json'',
                        ''shp'', ''topojson'', ''xls'', ''xlsx'']"

type_synonym verdicts = "bool option \<times> bool option \<times> string option"

text \<open>
  The loop over the resources ends in one of three ways: it runs out or breaks
  (\<open>Finished\<close>), it returns from inside at line 233 (\<open>Early\<close>), or a call raises.
  \<open>resource_step\<close> is one pass of its body after the \<open>break\<close> test: it goes on to the
  next resource with new verdicts, or it ends the loop.
\<close>

datatype loop_result = Finished verdicts | Early verdicts | Raised error

fun truthy_error :: "string option \<Rightarrow> bool" where
  "truthy_error None = False"
| "truthy_error (Some s) = (s \<noteq> [])"

fun truthy_files :: "string list option \<Rightarrow> bool" where
  "truthy_files None = False"
| "truthy_files (Some fs) = (fs \<noteq> [])"

definition ext_of :: "string \<Rightarrow> string" where
  "ext_of filetype =
     (let fileext = filetype;
          fileext = (if fileext = ''geodatabase'' then ''gdb'' else fileext);
          fileext = (if fileext = ''geopackage'' then ''gpkg'' else fileext)
      in fileext)"

text \<open>Lines 235 to 240 of the loop body, after the download.\<close>

definition classify ::
  "env \<Rightarrow> matchers \<Rightarrow> string \<Rightarrow> string list \<Rightarrow> bool option \<times> bool option \<Rightarrow> world
    \<Rightarrow> (error + verdicts) \<times> world" where
  "classify E M filetype resource_files flags w =
     (case read_downloaded_data E resource_files (ext_of filetype) w of
        (Inl e, w) \<Rightarrow> (Inl e, w)
      | (Inr (contents, error), w) \<Rightarrow>
          (case (if \<not> truthy_flag (fst flags) then check_pcoded M contents
                 else Inr (fst flags)) of
             Inl e \<Rightarrow> (Inl e, w)
           | Inr pcoded \<Rightarrow>
               (case (if \<not> truthy_flag pcoded \<and> \<not> truthy_flag (snd flags)
                         \<and> filetype \<in> set [''csv'', ''json'', ''xls'', ''xlsx'']
                      then check_latlong M contents else Inr (snd flags)) of
                  Inl e \<Rightarrow> (Inl e, w)
                | Inr latlonged \<Rightarrow> (Inr (pcoded, latlonged, error), w))))"

datatype step = Next verdicts | Stop loop_result

definition resource_step ::
  "env \<Rightarrow> matchers \<Rightarrow> string \<Rightarrow> resource \<Rightarrow> verdicts \<Rightarrow> world \<Rightarrow> step \<times> world" where
  "resource_step E M resource_folder resource v w =
     (case v of (pcoded, latlonged, error) \<Rightarrow>
        let filetype = file_type resource
        in if filetype \<notin> set allowed_filetypes then (Next (pcoded, latlonged, error), w)
           else
             (case download_resource E resource (ext_of filetype) resource_folder w of
                (Inl e, w) \<Rightarrow> (Stop (Raised e), w)
              | (Inr (resource_files, error), w) \<Rightarrow>
                  if \<not> truthy_files resource_files
                  then (Stop (Early (pcoded, latlonged, error)), w)
                  else
                    (case classify E M filetype (the resource_files) (pcoded, latlonged) w of
                       (Inl e, w) \<Rightarrow> (Stop (Raised e), w)
                     | (Inr v, w) \<Rightarrow> (Next v, w))))"

fun resource_loop ::
  "env \<Rightarrow> matchers \<Rightarrow> string \<Rightarrow> resource list \<Rightarrow> verdicts \<Rightarrow> world \<Rightarrow> loop_result \<times> world" where
  "resource_loop E M resource_folder [] v w = (Finished v, w)"
| "resource_loop E M resource_folder (resource # rest) v w =
     (if truthy_flag (fst v) then (Finished v, w)
      else
        case resource_step E M resource_folder resource v w of
          (Stop r, w) \<Rightarrow> (r, w)
        | (Next v, w) \<Rightarrow> resource_loop E M resource_folder rest v w)"

definition finalize :: "verdicts \<Rightarrow> verdicts" where
  "finalize v =
     (case v of (pcoded, latlonged, error) \<Rightarrow>
        let pcoded = (if \<not> truthy_error error \<and> \<not> truthy_flag pcoded
                      then Some False else pcoded);
            latlonged = (if \<not> truthy_error error \<and> \<not> truthy_flag pcoded
                            \<and> \<not> truthy_flag latlonged
                         then Some False else latlonged)
        in (pcoded, latlonged, error))"

definition check_location ::
  "env \<Rightarrow> matchers \<Rightarrow> dataset \<Rightarrow> string \<Rightarrow> world \<Rightarrow> (error + verdicts) \<times> world" where
  "check_location E M dataset temp_folder w =
     (if \<not> list_ex (\<lambda>f. f \<in> set allowed_filetypes) (filetypes dataset)
      then (Inr (None, None, Some ''Can't check formats''), w)
      else
        let resource_folder = join temp_folder (get_uuid E (drawn w));
            w = emit (Mkdir resource_folder) (draw w)
        in case resource_loop E M resource_folder (resources dataset) (None, None, None) w of
             (Raised e, w) \<Rightarrow> (Inl e, w)
           | (Early v, w) \<Rightarrow> (Inr v, w)
           | (Finished v, w) \<Rightarrow> (Inr (finalize v), emit (Rmtree resource_folder) w))"

section \<open>Notions for the statements\<close>

text \<open>
  The resources whose download was tried, in the order of the events; the resources of
  an allowed file type; and \<open>quiet w w'\<close>: from \<open>w\<close> to \<open>w'\<close> events were added, none of
  them a download.
\<close>

fun downloads :: "event list \<Rightarrow> resource list" where
  "downloads [] = []"
| "downloads (Download r f # evs) = r # downloads evs"
| "downloads (ev # evs) = downloads evs"

definition allowed :: "resource \<Rightarrow> bool" where
  "allowed r = (file_type r \<in> set allowed_filetypes)"

definition quiet :: "world \<Rightarrow> world \<Rightarrow> bool" where
  "quiet w w' = (\<exists>evs. events w' = events w @ evs \<and> downloads evs = [])"

text \<open>
  What the two geo branches of the loader read for a candidate: the file itself, or
  the layer that the candidate's last path component names.
\<close>

definition read_candidate :: "env \<Rightarrow> string \<Rightarrow> string \<Rightarrow> table option" where
  "read_candidate E fileext resource_file =
     (if fileext \<in> set [''geojson'', ''json'', ''shp'', ''topojson'']
      then read_file E resource_file
      else read_layer E (dirname resource_file) (basename resource_file))"

text \<open>
  The claims about the classifiers, in their words: a header qualifies when one of its
  \<open>||\<close>-separated parts matches; the values of a column are its cells that are not
  missing, as text; and values are mostly of a kind when at least one is and at most
  five are not. A latitude (longitude) column has a latitude (longitude) header and
  values that mostly match some latitude (longitude) pattern; a pcode column is a text
  or object column with a pcode header and values that mostly match the pcode pattern.
  A column is text valued when each cell is missing or a string.
\<close>

definition part_matches :: "(string \<Rightarrow> bool) \<Rightarrow> column \<Rightarrow> bool" where
  "part_matches header c = (\<exists>part\<in>set (split (label c)). header part)"

definition text_values :: "column \<Rightarrow> string list" where
  "text_values c = map py_str (filter (\<lambda>x. x \<noteq> NaN) (cells c))"

definition mostly :: "(string \<Rightarrow> bool) \<Rightarrow> string list \<Rightarrow> bool" where
  "mostly P vals = ((\<exists>v\<in>set vals. P v) \<and> length (filter (\<lambda>v. \<not> P v) vals) \<le> 5)"




definition pcode_column :: "matchers \<Rightarrow> column \<Rightarrow> bool" where
  "pcode_column M c =
     ((dtype c = DString \<or> dtype c = DObject)
      \<and> part_matches (header_exp M) c
      \<and> mostly (pcode_exp M) (text_values c))"

definition text_valued :: "column \<Rightarrow> bool" where
  "text_valued c = (\<forall>x\<in>set (cells c). x = NaN \<or> is_str x)"



section \<open>Example inputs\<close>

text \<open>
  A world in which nothing has happened yet, an environment without network or files,
  and matchers for a country table that holds Kenya alone: a column of strings and
  numbers has a \<open>.str\<close> when it is empty or holds a string; a header is a pcode header
  when it contains \<open>cod\<close>, a value is a pcode when it starts with \<open>KEN\<close> and a digit,
  both in any case; latitude and longitude headers start with \<open>lat\<close> and \<open>lon\<close>, and
  a coordinate is a string of digits with a decimal point.
\<close>

definition lower :: "char \<Rightarrow> char" where
  "lower c =
     (if 65 \<le> (of_char c :: nat) \<and> (of_char c :: nat) \<le> 90
      then char_of ((of_char c :: nat) + 32) else c)"

definition is_digit :: "char \<Rightarrow> bool" where
  "is_digit c = (48 \<le> (of_char c :: nat) \<and> (of_char c :: nat) \<le> 57)"

definition ken_matchers :: matchers where
  "ken_matchers =
     \<lparr>str_accessor = (\<lambda>column. column = [] \<or> list_ex is_str column),
      header_exp = (\<lambda>s. contains ''cod'' (map lower s)),
      pcode_exp = (\<lambda>s. startswith ''ken'' (map lower (take 3 s)) \<and> list_ex is_digit (take 1 (drop 3 s))),
      lat_header_exp = (\<lambda>s. startswith ''lat'' (map lower s)),
      lon_header_exp = (\<lambda>s. startswith ''lon'' (map lower s)),
      LAT_PATTERNS = [\<lambda>s. list_ex is_digit (take 1 s) \<and> contains ''.'' s],
      LON_PATTERNS = [\<lambda>s. list_ex is_digit (take 1 s) \<and> contains ''.'' s]\<rparr>"

definition w0 :: world where
  "w0 = \<lparr>drawn = 0, events = []\<rparr>"

definition offline :: env where
  "offline =
     \<lparr>get_uuid = (\<lambda>n. ''u'' @ str_nat n),
      download = (\<lambda>r folder. None),
      is_zipfile = (\<lambda>f. False),
      extractall = (\<lambda>f t. False),
      glob = (\<lambda>p. []),
      listlayers = (\<lambda>p. None),
      read_excel = (\<lambda>p. None),
      read_csv = (\<lambda>p. None),
      read_file = (\<lambda>p. None),
      read_layer = (\<lambda>d l. None)\<rparr>"

definition report_pdf :: dataset where
  "report_pdf =
     \<lparr>filetypes = [''pdf''],
      resources = [\<lparr>name = ''report.pdf'', file_type = ''pdf''\<rparr>]\<rparr>"

definition data_csv :: resource where
  "data_csv = \<lparr>name = ''data.csv'', file_type = ''csv''\<rparr>"

definition one_csv :: dataset where
  "one_csv = \<lparr>filetypes = [''csv''], resources = [data_csv]\<rparr>"

text \<open>
  An environment in which every download gives an archive that unpacks to nothing
  the search would find.
\<close>

definition hollow_archives :: env where
  "hollow_archives =
     offline\<lparr>download := (\<lambda>r folder. Some (join folder (name r))),
             is_zipfile := (\<lambda>f. True),
             extractall := (\<lambda>f t. True)\<rparr>"

definition sheets_xls :: resource where
  "sheets_xls = \<lparr>name = ''sheets.xls'', file_type = ''xls''\<rparr>"

definition sheets_xlsx :: resource where
  "sheets_xlsx = \<lparr>name = ''sheets.xlsx'', file_type = ''xlsx''\<rparr>"

text \<open>
  Files on disk: every download succeeds and lands under the resource's name, an archive
  unpacks to nothing the search finds, and two csv files can be read: a table of
  administrative units and a table of points.
\<close>

definition admin_table :: table where
  "admin_table =
     [\<lparr>label = ''ADM2PCODE'', dtype = DObject,
       cells = [Str ''KEN001'', Str ''KEN002'', Str ''KEN003'']\<rparr>,
      \<lparr>label = ''Name'', dtype = DObject,
       cells = [Str ''Nairobi'', Str ''Mombasa'', Str ''Kisumu'']\<rparr>]"

definition points_table :: table where
  "points_table =
     [\<lparr>label = ''Latitude'', dtype = DOther, cells = [Num True ''1.5'' ''1.5'', Num True ''2.25'' ''2.25'']\<rparr>,
      \<lparr>label = ''Longitude'', dtype = DOther, cells = [Num True ''36.8'' ''36.8'', Num True ''37.1'' ''37.1'']\<rparr>]"

definition local_files :: env where
  "local_files =
     offline\<lparr>download := (\<lambda>r folder. Some (join folder (name r))),
             extractall := (\<lambda>f t. True),
             read_csv := (\<lambda>p. if basename p = ''admin.csv'' then Some admin_table
                                else if basename p = ''points.csv'' then Some points_table
                                else None)\<rparr>"

definition admin_csv :: resource where
  "admin_csv = \<lparr>name = ''admin.csv'', file_type = ''csv''\<rparr>"

definition points_csv :: resource where
  "points_csv = \<lparr>name = ''points.csv'', file_type = ''csv''\<rparr>"


definition admin_then_points :: dataset where
  "admin_then_points = \<lparr>filetypes = [''csv''], resources = [admin_csv, points_csv]\<rparr>"




text \<open>Two geojson files that can be read; any other cannot.\<close>

definition geo_files :: env where
  "geo_files =
     offline\<lparr>read_file := (\<lambda>p. if basename p = ''units.geojson'' then Some admin_table
                                 else if basename p = ''points.geojson'' then Some points_table
                                 else None)\<rparr>"




definition ken_codes :: "cell list" where
  "ken_codes = map (\<lambda>n. Str (''KEN0'' @ str_nat n)) [10..<28]"

definition noisy_codes :: table where
  "noisy_codes =
     [\<lparr>label = ''ADM2PCODE'', dtype = DObject,
       cells = ken_codes @ [Num True ''17'' ''17'', Num True ''404'' ''404'']\<rparr>]"

definition text_noisy_codes :: table where
  "text_noisy_codes =
     [\<lparr>label = ''ADM2PCODE'', dtype = DObject,
       cells = ken_codes @ [Str ''n/a'', Str ''unknown'']\<rparr>]"

text \<open>A table as a csv with a header line and a line of HXL tags under it reads.\<close>

definition tagged_first :: table where
  "tagged_first =
     [\<lparr>label = ''Code'', dtype = DObject,
       cells = [Str ''#adm1+code'', Str ''KEN001'', Str ''KEN002'']\<rparr>,
      \<lparr>label = ''Name'', dtype = DObject,
       cells = [Str ''#adm1+name'', Str ''Nairobi'', Str ''Mombasa'']\<rparr>]"

text \<open>
  Two tables with a second header line above the tag row, the second with a gap in it.
\<close>

definition tagged_second :: table where
  "tagged_second =
     [\<lparr>label = ''Code'', dtype = DObject,
       cells = [Str ''Admin code'', Str ''#adm1+code'', Str ''KEN001'']\<rparr>,
      \<lparr>label = ''Unnamed: 1'', dtype = DObject,
       cells = [Str ''Admin name'', Str ''#adm1+name'', Str ''Nairobi'']\<rparr>]"

definition tagged_second_gap :: table where
  "tagged_second_gap =
     [\<lparr>label = ''Code'', dtype = DObject,
       cells = [Str ''Admin code'', Str ''#adm1+code'', Str ''KEN001'']\<rparr>,
      \<lparr>label = ''Unnamed: 1'', dtype = DObject,
       cells = [NaN, Str ''#adm1+name'', Str ''Nairobi'']\<rparr>]"

section \<open>The file type gate\<close>

text \<open>
  C7. A dataset none of whose declared file types is one of csv, geodatabase, geojson,
  geopackage, json, shp, topojson, xls, xlsx makes \<open>check_location\<close> return the error
  \<open>Can't check formats\<close> with both verdicts \<open>None\<close>, and the world is as it was: no
  identifier drawn, no directory made.
\<close>

theorem check_location_cannot_check:
  assumes "set (filetypes dataset) \<inter>
             {''csv'', ''geodatabase'', ''geojson'', ''geopackage'', ''json'',
              ''shp'', ''topojson'', ''xls'', ''xlsx''} = {}"
  shows "check_location E M dataset temp_folder w =
           (Inr (None, None, Some ''Can't check formats''), w)"
proof -
  have "\<not> list_ex (\<lambda>f. f \<in> set allowed_filetypes) (filetypes dataset)"
    using assms unfolding list_ex_iff allowed_filetypes_def by auto
  then show ?thesis
    by (simp add: check_location_def)
qed

theorem check_location_cannot_check_witness:
  "set (filetypes report_pdf) \<inter>
     {''csv'', ''geodatabase'', ''geojson'', ''geopackage'', ''json'',
      ''shp'', ''topojson'', ''xls'', ''xlsx''} = {}
   \<and> check_location offline ken_matchers report_pdf ''/tmp'' w0 =
       (Inr (None, None, Some ''Can't check formats''), w0)"
proof -
  have h: "set (filetypes report_pdf) \<inter>
     {''csv'', ''geodatabase'', ''geojson'', ''geopackage'', ''json'',
      ''shp'', ''topojson'', ''xls'', ''xlsx''} = {}"
    by (simp add: report_pdf_def)
  show ?thesis
    using h check_location_cannot_check [OF h, of offline ken_matchers "''/tmp''" w0] by simp
qed

section \<open>The scratch directory\<close>

text \<open>
  C4. The claim is that the scratch directory is removed on every path. On a dataset
  whose only resource cannot be downloaded, \<open>check_location\<close> makes the directory,
  tries the download and returns at line 233: no \<open>rmtree\<close> has happened.
\<close>

theorem check_location_keeps_folder_after_failed_download:
  "check_location offline ken_matchers one_csv ''/tmp'' w0 =
     (Inr (None, None, Some ''Could not download file data.csv''),
      \<lparr>drawn = 1, events = [Mkdir ''/tmp/u0'', Download data_csv ''/tmp/u0'']\<rparr>)"
  by code_simp

section \<open>Archives without a matching file\<close>

text \<open>
  C8, as the claim states it, fails for xls: the archive of an xls resource that
  unpacks to nothing matching gives no candidate at all.
\<close>

theorem xls_archive_counterexample:
  "download hollow_archives sheets_xls ''/tmp/u0'' = Some ''/tmp/u0/sheets.xls''
   \<and> is_zipfile hollow_archives ''/tmp/u0/sheets.xls''
   \<and> extractall hollow_archives ''/tmp/u0/sheets.xls'' ''/tmp/u0/u0''
   \<and> glob hollow_archives ''/tmp/u0/u0/**/*.xls'' = []
   \<and> fst (download_resource hollow_archives sheets_xls ''xls'' ''/tmp/u0'' w0)
       = Inr (Some [], None)
   \<and> fst (download_resource hollow_archives sheets_xls ''xls'' ''/tmp/u0'' w0)
       \<noteq> Inr (Some [''/tmp/u0/sheets.xls''], None)"
  by code_simp

text \<open>
  C8, amended. When the downloaded file is an archive that unpacks, and the search
  finds no file of the declared extension, \<open>download_resource\<close> returns the downloaded
  file as the only candidate for xlsx, and no candidate for xls; no error either way.
\<close>

theorem archive_without_match:
  assumes "fileext = ''xlsx'' \<or> fileext = ''xls''"
    and "download E resource resource_folder = Some resource_file"
    and "is_zipfile E resource_file \<or> contains ''.zip'' (basename resource_file)"
    and "temp = join resource_folder (get_uuid E (drawn w))"
    and "extractall E resource_file temp"
    and "glob E (join (join temp ''**'') (''*.'' @ fileext)) = []"
  shows "fst (download_resource E resource fileext resource_folder w) =
           Inr (Some (if fileext = ''xlsx'' then [resource_file] else []), None)"
  using assms
  by (auto simp add: download_resource_def unzip_resource_def Let_def emit_def draw_def)

theorem archive_without_match_witness:
  "fst (download_resource hollow_archives sheets_xlsx ''xlsx'' ''/tmp/u0'' w0) =
     Inr (Some [''/tmp/u0/sheets.xlsx''], None)"
proof -
  have "download hollow_archives sheets_xlsx ''/tmp/u0'' = Some ''/tmp/u0/sheets.xlsx''"
    by code_simp
  moreover have "is_zipfile hollow_archives ''/tmp/u0/sheets.xlsx''
                 \<or> contains ''.zip'' (basename ''/tmp/u0/sheets.xlsx'')"
    by code_simp
  moreover have "''/tmp/u0/u0'' = join ''/tmp/u0'' (get_uuid hollow_archives (drawn w0))"
    by code_simp
  moreover have "extractall hollow_archives ''/tmp/u0/sheets.xlsx'' ''/tmp/u0/u0''"
    by code_simp
  moreover have "glob hollow_archives (join (join ''/tmp/u0/u0'' ''**'') (''*.'' @ ''xlsx'')) = []"
    by code_simp
  ultimately show ?thesis
    using archive_without_match [of "''xlsx''" hollow_archives sheets_xlsx "''/tmp/u0''"
        "''/tmp/u0/sheets.xlsx''" "''/tmp/u0/u0''" w0]
    by simp
qed

section \<open>The order of the resources\<close>

subsection \<open>What each step adds to the events\<close>

lemma downloads_append: "downloads (xs @ ys) = downloads xs @ downloads ys"
  by (induction xs rule: downloads.induct) auto

lemma quiet_refl: "quiet w w"
  by (simp add: quiet_def)

lemma quiet_trans: "quiet w w' \<Longrightarrow> quiet w' w'' \<Longrightarrow> quiet w w''"
  by (auto simp add: quiet_def downloads_append)

lemma quiet_draw: "quiet w (draw w)"
  by (simp add: quiet_def draw_def)

lemma quiet_load: "quiet w (emit (Load f) w)"
  by (simp add: quiet_def emit_def)

lemma quiet_load_draw: "quiet w (emit (Load f) (draw w))" "quiet w (draw (emit (Load f) w))"
  by (simp_all add: quiet_def emit_def draw_def)

lemma read_sheets_quiet: "read_sheets E fileext sheets data w = (r, w') \<Longrightarrow> quiet w w'"
proof (induction sheets arbitrary: data w)
  case Nil
  then show ?case by (simp add: quiet_refl)
next
  case (Cons sheet rest)
  then show ?case
    by (auto simp add: quiet_refl split: if_splits sum.splits intro: quiet_trans [OF quiet_draw])
qed

lemma read_spreadsheet_quiet: "read_spreadsheet E fileext f acc w = (r, w') \<Longrightarrow> quiet w w'"
proof -
  assume a: "read_spreadsheet E fileext f acc w = (r, w')"
  obtain data error where acc: "acc = (data, error)" by (cases acc)
  show ?thesis
  proof (cases "read_excel E f")
    case None
    with a acc show ?thesis by (auto simp add: read_spreadsheet_def quiet_load)
  next
    case (Some contents)
    obtain r1 w1 where rs: "read_sheets E fileext contents data (emit (Load f) w) = (r1, w1)"
      by (cases "read_sheets E fileext contents data (emit (Load f) w)")
    from a acc Some rs have "w' = w1"
      by (cases r1) (simp_all add: read_spreadsheet_def)
    with read_sheets_quiet [OF rs] show ?thesis
      using quiet_trans [OF quiet_load] by blast
  qed
qed

lemma read_delimited_quiet: "read_delimited E fileext f acc w = (r, w') \<Longrightarrow> quiet w w'"
proof -
  assume a: "read_delimited E fileext f acc w = (r, w')"
  obtain data error where acc: "acc = (data, error)" by (cases acc)
  have "w' = emit (Load f) w \<or> w' = draw (emit (Load f) w)"
    using a acc unfolding read_delimited_def
    by (cases "read_csv E f"; cases "parse_tabular (the (read_csv E f)) fileext") auto
  then show ?thesis
    using quiet_load quiet_load_draw by auto
qed


lemma read_geo_quiet: "read_geo rd E f acc w = (r, w') \<Longrightarrow> quiet w w'"
proof -
  assume a: "read_geo rd E f acc w = (r, w')"
  obtain data error where acc: "acc = (data, error)" by (cases acc)
  have "w' = emit (Load f) (draw w)"
    using a acc unfolding read_geo_def by (cases rd) auto
  then show ?thesis
    using quiet_load_draw by simp
qed

lemma read_one_quiet: "read_one E fileext f acc w = (r, w') \<Longrightarrow> quiet w w'"
proof -
  assume a: "read_one E fileext f acc w = (r, w')"
  consider (x) "read_spreadsheet E fileext f acc w = (r, w')"
    | (c) "read_delimited E fileext f acc w = (r, w')"
    | (g) rd where "read_geo rd E f acc w = (r, w')"
    | (n) "w' = w"
    using a unfolding read_one_def by (simp only: split: if_split_asm) auto
  then show ?thesis
    by cases (auto dest: read_spreadsheet_quiet read_delimited_quiet read_geo_quiet simp add: quiet_refl)
qed

lemma read_files_quiet: "read_files E fileext files acc w = (r, w') \<Longrightarrow> quiet w w'"
proof (induction files arbitrary: acc w)
  case Nil
  then show ?case by (simp add: quiet_refl)
next
  case (Cons f rest)
  obtain r1 w1 where one: "read_one E fileext f acc w = (r1, w1)"
    by (cases "read_one E fileext f acc w")
  have q1: "quiet w w1" by (rule read_one_quiet [OF one])
  show ?case
  proof (cases r1)
    case (Inl e)
    with Cons.prems one have "w' = w1" by simp
    with q1 show ?thesis by simp
  next
    case (Inr acc1)
    with Cons.prems one have "read_files E fileext rest acc1 w1 = (r, w')" by simp
    from Cons.IH [OF this] q1 show ?thesis by (rule quiet_trans [rotated])
  qed
qed

lemma classify_quiet: "classify E M filetype files flags w = (r, w') \<Longrightarrow> quiet w w'"
proof -
  assume a: "classify E M filetype files flags w = (r, w')"
  obtain r1 w1 where rd: "read_downloaded_data E files (ext_of filetype) w = (r1, w1)"
    by (cases "read_downloaded_data E files (ext_of filetype) w")
  have "w' = w1"
    using a rd unfolding classify_def
    by (auto split: sum.splits prod.splits if_splits)
  moreover have "quiet w w1"
    using rd unfolding read_downloaded_data_def by (rule read_files_quiet)
  ultimately show ?thesis by simp
qed

lemma unzip_resource_events:
  "unzip_resource E r ext folder file w = (out, w') \<Longrightarrow> quiet w w'"
proof -
  assume a: "unzip_resource E r ext folder file w = (out, w')"
  have "w' = emit (Extract file (join folder (get_uuid E (drawn w)))) (draw w)"
    using a unfolding unzip_resource_def Let_def
    by (simp only: split: if_split_asm sum.split_asm) auto
  then show ?thesis
    by (simp add: quiet_def emit_def draw_def)
qed

lemma download_resource_events:
  "download_resource E r ext folder w = (out, w') \<Longrightarrow>
     \<exists>evs. events w' = events w @ Download r folder # evs \<and> downloads evs = []"
proof -
  assume a: "download_resource E r ext folder w = (out, w')"
  have "quiet (emit (Download r folder) w) w'"
    using a unfolding download_resource_def Let_def
    by (auto split: option.splits if_splits dest: unzip_resource_events simp add: quiet_refl)
  then show ?thesis
    by (auto simp add: quiet_def emit_def)
qed

lemma resource_step_never_finishes:
  "resource_step E M folder r v w = (Stop res, w') \<Longrightarrow> res \<noteq> Finished v'"
  unfolding resource_step_def Let_def
  by (auto split: prod.splits sum.splits if_splits)

lemma resource_step_events:
  "resource_step E M folder r v w = (s, w') \<Longrightarrow>
     \<exists>evs. events w' = events w @ evs \<and> downloads evs = (if allowed r then [r] else [])"
proof (cases "allowed r")
  case False
  assume "resource_step E M folder r v w = (s, w')"
  with False have "w' = w"
    unfolding resource_step_def Let_def allowed_def by (auto split: prod.splits)
  with False show ?thesis by simp
next
  case True
  assume a: "resource_step E M folder r v w = (s, w')"
  obtain out w1 where d: "download_resource E r (ext_of (file_type r)) folder w = (out, w1)"
    by (cases "download_resource E r (ext_of (file_type r)) folder w")
  from download_resource_events [OF d] obtain evs1 where
    e1: "events w1 = events w @ Download r folder # evs1" "downloads evs1 = []" by blast
  have "quiet w1 w'"
    using a d True unfolding resource_step_def Let_def allowed_def
    by (auto split: prod.splits sum.splits if_splits dest: classify_quiet simp add: quiet_refl)
  then obtain evs2 where "events w' = events w1 @ evs2" "downloads evs2 = []"
    by (auto simp add: quiet_def)
  with e1 True show ?thesis
    by (auto simp add: downloads_append)
qed

lemma resource_loop_downloads:
  "resource_loop E M folder rs v w = (res, w') \<Longrightarrow>
     \<exists>evs. events w' = events w @ evs \<and> prefix (downloads evs) (filter allowed rs)"
proof (induction rs arbitrary: v w)
  case Nil
  then show ?case by simp
next
  case (Cons r rest)
  show ?case
  proof (cases "truthy_flag (fst v)")
    case True
    with Cons.prems show ?thesis by simp
  next
    case False
    obtain s w1 where st: "resource_step E M folder r v w = (s, w1)"
      by (cases "resource_step E M folder r v w")
    from resource_step_events [OF st] obtain evs1 where
      e1: "events w1 = events w @ evs1" "downloads evs1 = (if allowed r then [r] else [])"
      by blast
    show ?thesis
    proof (cases s)
      case (Stop res1)
      with Cons.prems False st have "w' = w1" by simp
      with e1 show ?thesis by auto
    next
      case (Next v1)
      with Cons.prems False st have "resource_loop E M folder rest v1 w1 = (res, w')" by simp
      from Cons.IH [OF this] obtain evs2 where
        "events w' = events w1 @ evs2" "prefix (downloads evs2) (filter allowed rest)" by blast
      with e1 show ?thesis
        by (auto simp add: downloads_append)
    qed
  qed
qed

lemma resource_loop_append:
  "resource_loop E M folder (xs @ ys) v w =
     (case resource_loop E M folder xs v w of
        (Finished v', w') \<Rightarrow> resource_loop E M folder ys v' w'
      | other \<Rightarrow> other)"
proof (induction xs arbitrary: v w)
  case Nil
  then show ?case by simp
next
  case (Cons r rest)
  show ?case
  proof (cases "truthy_flag (fst v)")
    case True
    then show ?thesis by (cases ys) simp_all
  next
    case False
    obtain s w1 where st: "resource_step E M folder r v w = (s, w1)"
      by (cases "resource_step E M folder r v w")
    show ?thesis
    proof (cases s)
      case (Stop res1)
      with resource_step_never_finishes st have "\<forall>v'. res1 \<noteq> Finished v'" by blast
      with Stop st False show ?thesis by (cases res1) auto
    next
      case (Next v1)
      with st False Cons.IH show ?thesis by simp
    qed
  qed
qed

lemma resource_loop_early:
  "resource_loop E M folder rs v w = (Early v', w') \<Longrightarrow> \<not> truthy_flag (fst v')"
proof (induction rs arbitrary: v w)
  case Nil
  then show ?case by simp
next
  case (Cons r rest)
  show ?case
  proof (cases "truthy_flag (fst v)")
    case True
    with Cons.prems show ?thesis by simp
  next
    case False
    obtain s w1 where st: "resource_step E M folder r v w = (s, w1)"
      by (cases "resource_step E M folder r v w")
    show ?thesis
    proof (cases s)
      case (Stop res1)
      with Cons.prems False st have "res1 = Early v'" by simp
      with st Stop have "fst v' = fst v"
        unfolding resource_step_def Let_def
        by (auto split: prod.splits sum.splits if_splits)
      with False show ?thesis by simp
    next
      case (Next v1)
      with Cons.prems False st have "resource_loop E M folder rest v1 w1 = (Early v', w')" by simp
      then show ?thesis by (rule Cons.IH)
    qed
  qed
qed

lemma finalize_true: "finalize v = (Some True, l, e) \<Longrightarrow> v = (Some True, l, e)"
  unfolding finalize_def Let_def
  by (auto split: prod.splits if_splits)


subsection \<open>The scan ends at the first pcode match\<close>

text \<open>
  C6. The downloads \<open>check_location\<close> tries are those of the allowed resources in listing
  order, from the first one on without a gap. And when the check of the dataset with the
  resources \<open>done\<close> alone ends with the pcode verdict \<open>True\<close>, the check with any resources
  \<open>later\<close> after them gives the same verdicts and the same world: nothing of a later
  resource is downloaded, unpacked or loaded, and no classifier sees it.
\<close>

theorem pcode_success_ends_the_scan:
  "prefix (downloads (drop (length (events w))
                        (events (snd (check_location E M dataset temp_folder w)))))
          (filter allowed (resources dataset))
   \<and> (\<forall>done later l e w'.
         resources dataset = done @ later \<and>
         check_location E M (dataset\<lparr>resources := done\<rparr>) temp_folder w
           = (Inr (Some True, l, e), w')
         \<longrightarrow> check_location E M dataset temp_folder w = (Inr (Some True, l, e), w'))"
proof (intro conjI allI impI)
  define folder where "folder = join temp_folder (get_uuid E (drawn w))"
  define w1 where "w1 = emit (Mkdir folder) (draw w)"
  obtain res w2 where loop: "resource_loop E M folder (resources dataset) (None, None, None) w1 = (res, w2)"
    by (cases "resource_loop E M folder (resources dataset) (None, None, None) w1")
  from resource_loop_downloads [OF loop] obtain evs where
    evs: "events w2 = events w1 @ evs" "prefix (downloads evs) (filter allowed (resources dataset))"
    by blast
  have ev1: "events w1 = events w @ [Mkdir folder]"
    by (simp add: w1_def emit_def draw_def)
  show "prefix (downloads (drop (length (events w))
                        (events (snd (check_location E M dataset temp_folder w)))))
          (filter allowed (resources dataset))"
  proof (cases "list_ex (\<lambda>f. f \<in> set allowed_filetypes) (filetypes dataset)")
    case False
    then show ?thesis by (simp add: check_location_def)
  next
    case True
    have "events (snd (check_location E M dataset temp_folder w)) = events w2
          \<or> events (snd (check_location E M dataset temp_folder w)) = events w2 @ [Rmtree folder]"
      using True loop unfolding check_location_def Let_def folder_def [symmetric] w1_def [symmetric]
      by (cases res) (simp_all add: emit_def)
    with evs ev1 show ?thesis
      by (auto simp add: downloads_append)
  qed
next
  fix "done" later l e w'
  assume a: "resources dataset = done @ later \<and>
         check_location E M (dataset\<lparr>resources := done\<rparr>) temp_folder w
           = (Inr (Some True, l, e), w')"
  define folder where "folder = join temp_folder (get_uuid E (drawn w))"
  define w1 where "w1 = emit (Mkdir folder) (draw w)"
  obtain res w2 where loop: "resource_loop E M folder done (None, None, None) w1 = (res, w2)"
    by (cases "resource_loop E M folder done (None, None, None) w1")
  from a have gate: "list_ex (\<lambda>f. f \<in> set allowed_filetypes) (filetypes dataset)"
    by (auto simp add: check_location_def split: if_splits)
  from a gate loop have out:
    "(case res of Raised e \<Rightarrow> (Inl e, w2) | Early v \<Rightarrow> (Inr v, w2)
      | Finished v \<Rightarrow> (Inr (finalize v), emit (Rmtree folder) w2)) = (Inr (Some True, l, e), w')"
    unfolding check_location_def Let_def folder_def [symmetric] w1_def [symmetric]
    by (simp split: loop_result.splits)
  have fin: "res = Finished (Some True, l, e)"
  proof (cases res)
    case (Finished v)
    with out have "finalize v = (Some True, l, e)" by simp
    with Finished show ?thesis by (simp add: finalize_true)
  next
    case (Early v)
    with out have "v = (Some True, l, e)" by simp
    with Early loop resource_loop_early [of E M folder "done" "(None, None, None)" w1 v w2]
    show ?thesis by simp
  next
    case (Raised x)
    with out show ?thesis by simp
  qed
  have "resource_loop E M folder (done @ later) (None, None, None) w1 = (Finished (Some True, l, e), w2)"
    using loop fin by (cases later) (simp_all add: resource_loop_append)
  with a gate out fin show "check_location E M dataset temp_folder w = (Inr (Some True, l, e), w')"
    unfolding check_location_def Let_def folder_def [symmetric] w1_def [symmetric]
    by simp
qed

theorem pcode_success_ends_the_scan_witness:
  "check_location local_files ken_matchers (admin_then_points\<lparr>resources := [admin_csv]\<rparr>) ''/tmp'' w0
     = (Inr (Some True, None, None),
        \<lparr>drawn = 2,
         events = [Mkdir ''/tmp/u0'', Download admin_csv ''/tmp/u0'',
                   Load ''/tmp/u0/admin.csv'', Rmtree ''/tmp/u0'']\<rparr>)
   \<and> check_location local_files ken_matchers admin_then_points ''/tmp'' w0
     = (Inr (Some True, None, None),
        \<lparr>drawn = 2,
         events = [Mkdir ''/tmp/u0'', Download admin_csv ''/tmp/u0'',
                   Load ''/tmp/u0/admin.csv'', Rmtree ''/tmp/u0'']\<rparr>)
   \<and> prefix (downloads (drop (length (events w0))
               (events (snd (check_location local_files ken_matchers admin_then_points ''/tmp'' w0)))))
        (filter allowed (resources admin_then_points))"
proof -
  have h: "check_location local_files ken_matchers (admin_then_points\<lparr>resources := [admin_csv]\<rparr>) ''/tmp'' w0
     = (Inr (Some True, None, None),
        \<lparr>drawn = 2,
         events = [Mkdir ''/tmp/u0'', Download admin_csv ''/tmp/u0'',
                   Load ''/tmp/u0/admin.csv'', Rmtree ''/tmp/u0'']\<rparr>)"
    by code_simp
  have r: "resources admin_then_points = [admin_csv] @ [points_csv]"
    by (simp add: admin_then_points_def)
  note t = pcode_success_ends_the_scan [of w0 local_files ken_matchers admin_then_points "''/tmp''"]
  from t r h show ?thesis by blast
qed


section \<open>A resource without candidates\<close>












section \<open>The geo branches of the loader\<close>

lemma read_one_geo:
  assumes "fileext \<in> set [''geojson'', ''json'', ''shp'', ''topojson'', ''gdb'', ''gpkg'']"
  shows "read_one E fileext f acc w = read_geo (read_candidate E fileext f) E f acc w"
  using assms by (auto simp add: read_one_def read_candidate_def)

lemma read_files_geo:
  assumes "fileext \<in> set [''geojson'', ''json'', ''shp'', ''topojson'', ''gdb'', ''gpkg'']"
  shows "\<exists>data error w'.
           read_files E fileext files (data0, error0) w = (Inr (data, error), w')
           \<and> map snd data =
               (if List.map_filter (read_candidate E fileext) files = [] then map snd data0
                else [last (List.map_filter (read_candidate E fileext) files)])"
proof (induction files arbitrary: data0 error0 w)
  case Nil
  then show ?case by (simp add: List.map_filter_simps)
next
  case (Cons f rest)
  let ?s = "List.map_filter (read_candidate E fileext) rest"
  show ?case
  proof (cases "read_candidate E fileext f")
    case None
    then have one: "read_one E fileext f (data0, error0) w =
                 (Inr (data0, Some (unable f)), emit (Load f) (draw w))"
      by (simp add: read_one_geo [OF assms] read_geo_def)
    from Cons.IH [of data0 "Some (unable f)" "emit (Load f) (draw w)"]
    obtain data error w' where
      r: "read_files E fileext rest (data0, Some (unable f)) (emit (Load f) (draw w))
            = (Inr (data, error), w')"
      and d: "map snd data = (if ?s = [] then map snd data0 else [last ?s])"
      by blast
    have "read_files E fileext (f # rest) (data0, error0) w = (Inr (data, error), w')"
      using one r by simp
    moreover have "map snd data =
        (if List.map_filter (read_candidate E fileext) (f # rest) = [] then map snd data0
         else [last (List.map_filter (read_candidate E fileext) (f # rest))])"
      using d None by (simp add: List.map_filter_simps)
    ultimately show ?thesis by blast
  next
    case (Some df)
    then have one: "read_one E fileext f (data0, error0) w =
                 (Inr ([(get_uuid E (drawn w), df)], error0), emit (Load f) (draw w))"
      by (simp add: read_one_geo [OF assms] read_geo_def)
    from Cons.IH [of "[(get_uuid E (drawn w), df)]" error0 "emit (Load f) (draw w)"]
    obtain data error w' where
      r: "read_files E fileext rest ([(get_uuid E (drawn w), df)], error0)
            (emit (Load f) (draw w)) = (Inr (data, error), w')"
      and d: "map snd data = (if ?s = [] then [df] else [last ?s])"
      by auto
    have "read_files E fileext (f # rest) (data0, error0) w = (Inr (data, error), w')"
      using one r by simp
    moreover have "map snd data =
        (if List.map_filter (read_candidate E fileext) (f # rest) = [] then map snd data0
         else [last (List.map_filter (read_candidate E fileext) (f # rest))])"
      using d Some by (simp add: List.map_filter_simps)
    ultimately show ?thesis by blast
  qed
qed

text \<open>
  C9. For the extensions geojson, json, shp, topojson, gdb and gpkg, a candidate that
  is read replaces whatever the mapping held by a mapping of one entry, under a key
  drawn for it; and after any list of candidates the mapping handed to the classifiers
  holds the sample of the last candidate that could be read and nothing else (it is
  empty when none could).
\<close>

theorem geo_keeps_last_sample:
  assumes "fileext \<in> set [''geojson'', ''json'', ''shp'', ''topojson'', ''gdb'', ''gpkg'']"
  shows "(\<forall>resource_file df data error w.
            read_candidate E fileext resource_file = Some df \<longrightarrow>
            fst (read_one E fileext resource_file (data, error) w)
              = Inr ([(get_uuid E (drawn w), df)], error))
         \<and> (\<exists>data error w'.
              read_downloaded_data E resource_files fileext w = (Inr (data, error), w')
              \<and> map snd data =
                  (if List.map_filter (read_candidate E fileext) resource_files = [] then []
                   else [last (List.map_filter (read_candidate E fileext) resource_files)]))"
proof (intro conjI allI impI)
  fix resource_file df data error w
  assume "read_candidate E fileext resource_file = Some df"
  then show "fst (read_one E fileext resource_file (data, error) w)
              = Inr ([(get_uuid E (drawn w), df)], error)"
    by (simp add: read_one_geo [OF assms] read_geo_def)
next
  from read_files_geo [OF assms, of E resource_files "[]" None w]
  obtain data error w' where
    "read_files E fileext resource_files ([], None) w = (Inr (data, error), w')"
    "map snd data =
       (if List.map_filter (read_candidate E fileext) resource_files = []
        then map snd ([] :: samples)
        else [last (List.map_filter (read_candidate E fileext) resource_files)])"
    by blast
  then have "read_downloaded_data E resource_files fileext w = (Inr (data, error), w')
      \<and> map snd data =
          (if List.map_filter (read_candidate E fileext) resource_files = [] then []
           else [last (List.map_filter (read_candidate E fileext) resource_files)])"
    by (simp add: read_downloaded_data_def)
  then show "\<exists>data error w'.
              read_downloaded_data E resource_files fileext w = (Inr (data, error), w')
              \<and> map snd data =
                  (if List.map_filter (read_candidate E fileext) resource_files = [] then []
                   else [last (List.map_filter (read_candidate E fileext) resource_files)])"
    by blast
qed


theorem geo_keeps_last_sample_witness:
  "fst (read_downloaded_data geo_files
          [''/tmp/u0/u1/units.geojson'', ''/tmp/u0/u1/points.geojson'', ''/tmp/u0/u1/broken.geojson'']
          ''geojson'' w0)
     = Inr ([(''u1'', points_table)], Some ''Unable to read resource broken.geojson'')
   \<and> List.map_filter (read_candidate geo_files ''geojson'')
        [''/tmp/u0/u1/units.geojson'', ''/tmp/u0/u1/points.geojson'', ''/tmp/u0/u1/broken.geojson'']
     = [admin_table, points_table]
   \<and> fst (read_one geo_files ''geojson'' ''/tmp/u0/u1/points.geojson''
            ([(''u0'', admin_table)], None) \<lparr>drawn = 1, events = []\<rparr>)
     = Inr ([(''u1'', points_table)], None)"
proof -
  have m: "''geojson'' \<in> set [''geojson'', ''json'', ''shp'', ''topojson'', ''gdb'', ''gpkg'']"
    by simp
  have c: "read_candidate geo_files ''geojson'' ''/tmp/u0/u1/points.geojson'' = Some points_table"
    by code_simp
  have u: "get_uuid geo_files (drawn \<lparr>drawn = 1, events = []\<rparr>) = ''u1''"
    by code_simp
  have s: "List.map_filter (read_candidate geo_files ''geojson'')
        [''/tmp/u0/u1/units.geojson'', ''/tmp/u0/u1/points.geojson'', ''/tmp/u0/u1/broken.geojson'']
     = [admin_table, points_table]"
    by code_simp
  have d: "fst (read_downloaded_data geo_files
          [''/tmp/u0/u1/units.geojson'', ''/tmp/u0/u1/points.geojson'', ''/tmp/u0/u1/broken.geojson'']
          ''geojson'' w0)
     = Inr ([(''u1'', points_table)], Some ''Unable to read resource broken.geojson'')"
    by code_simp
  from geo_keeps_last_sample [OF m, of geo_files] c u
  have "fst (read_one geo_files ''geojson'' ''/tmp/u0/u1/points.geojson''
            ([(''u0'', admin_table)], None) \<lparr>drawn = 1, events = []\<rparr>)
     = Inr ([(''u1'', points_table)], None)"
    by metis
  with s d show ?thesis by simp
qed

section \<open>The lat/long classifier\<close>

lemma isna_iff: "isna x = (x = NaN)"
  by (cases x) simp_all

lemma dropna_values: "map py_str (dropna c) = text_values c"
  by (simp add: dropna_def text_values_def isna_iff)


lemma getitem_distinct:
  "distinct (map label content) \<Longrightarrow> c \<in> set content \<Longrightarrow> getitem content (label c) = [c]"
  unfolding getitem_def
proof (induction content)
  case Nil
  then show ?case by simp
next
  case (Cons d ds)
  show ?case
  proof (cases "c = d")
    case True
    from Cons.prems(1) have "label d \<notin> label ` set ds" by simp
    then have "\<forall>x\<in>set ds. label x \<noteq> label d" by (auto simp add: image_iff)
    with True have "filter (\<lambda>x. label x = label c) ds = []"
      by (simp add: filter_empty_conv)
    with True show ?thesis by simp
  next
    case False
    with Cons.prems have "c \<in> set ds" "label d \<noteq> label c"
      by auto
    with Cons show ?thesis by simp
  qed
qed



lemma truthy_flag_set: "truthy_flag (if a then Some True else p) = (a \<or> truthy_flag p)"
  by simp



lemma flag_cases: "p \<noteq> Some False \<Longrightarrow> (p = Some True) = truthy_flag p \<and> (p = Some True \<or> p = None)"
  by (cases p) auto




section \<open>The pcode classifier\<close>

lemma py_sum_text:
  "list_all is_str xs \<Longrightarrow>
     py_sum (Some n) (map (str_match p) xs) = Some (n + length (filter (\<lambda>x. p (py_str x)) xs))"
proof (induction xs arbitrary: n)
  case Nil
  then show ?case by simp
next
  case (Cons x xs)
  then obtain s where "x = Str s" by (cases x) simp_all
  with Cons show ?case by simp
qed

lemma py_sum_None: "py_sum None vs = None"
  by (induction vs) simp_all

lemma py_sum_nan: "None \<in> set vs \<Longrightarrow> py_sum acc vs = None"
proof (induction vs arbitrary: acc)
  case Nil
  then show ?case by simp
next
  case (Cons v vs)
  show ?case
  proof (cases v)
    case None
    then show ?thesis by (cases acc) (simp_all add: py_sum_None)
  next
    case (Some b)
    with Cons show ?thesis by auto
  qed
qed

lemma pcoded_column_non_text:
  assumes "\<exists>x\<in>set (cells c). x \<noteq> NaN \<and> \<not> is_str x"
  shows "pcoded_column M c \<noteq> Inr True"
proof -
  from assms obtain x where x: "x \<in> set (dropna c)" "\<not> is_str x"
    by (auto simp add: dropna_def isna_iff)
  from x(2) have "str_match (pcode_exp M) x = None" by (cases x) simp_all
  with x have "None \<in> set (map (str_match (pcode_exp M)) (dropna c))"
    by (metis image_eqI set_map)
  then have "py_sum (Some 0) (map (str_match (pcode_exp M)) (dropna c)) = None"
    by (rule py_sum_nan)
  then show ?thesis
    by (simp add: pcoded_column_def Let_def)
qed

lemma pcoded_column_text:
  assumes "text_valued c" and "\<forall>column. list_all is_str column \<longrightarrow> str_accessor M column"
  shows "pcoded_column M c = Inr (mostly (pcode_exp M) (text_values c))"
proof -
  have all: "list_all is_str (dropna c)"
    using assms(1) by (auto simp add: text_valued_def dropna_def list_all_iff isna_iff)
  with assms(2) have gate: "str_accessor M (dropna c)"
    by simp
  let ?P = "\<lambda>x. pcode_exp M (py_str x)"
  have len: "length (dropna c) = length (filter ?P (dropna c)) + length (filter (\<lambda>x. \<not> ?P x) (dropna c))"
    by (simp add: sum_length_filter_compl)
  have pos: "(0 < length (filter ?P (dropna c))) = (\<exists>x\<in>set (dropna c). ?P x)"
    by (simp add: filter_empty_conv)
  have m: "mostly (pcode_exp M) (text_values c) =
             ((\<exists>x\<in>set (dropna c). ?P x) \<and> length (filter (\<lambda>x. \<not> ?P x) (dropna c)) \<le> 5)"
    unfolding mostly_def dropna_values [symmetric]
    by (simp add: filter_map comp_def)
  show ?thesis
    using gate len pos
    unfolding pcoded_column_def Let_def py_sum_text [OF all] m
    by auto
qed


lemma distinct_select_dtypes:
  "distinct (map label content) \<Longrightarrow> distinct (map label (select_dtypes content))"
  unfolding select_dtypes_def by (rule distinct_map_filter)

lemma pcoded_headers_spec:
  assumes "distinct (map label content)" and "\<forall>c\<in>set content. text_valued c"
    and "\<forall>column. list_all is_str column \<longrightarrow> str_accessor M column"
  shows "set cs \<subseteq> set content \<Longrightarrow> p \<noteq> Some False \<Longrightarrow>
     \<exists>p'. pcoded_headers M content (map label cs) p = Inr p'
       \<and> p' \<noteq> Some False
       \<and> truthy_flag p' =
           (truthy_flag p \<or> (\<exists>c\<in>set cs. part_matches (header_exp M) c
                                          \<and> mostly (pcode_exp M) (text_values c)))"
proof (induction cs arbitrary: p)
  case Nil
  then show ?case by simp
next
  case (Cons c cs)
  have cin: "c \<in> set content" and sub: "set cs \<subseteq> set content"
    using Cons.prems(1) by auto
  let ?h = "list_ex (header_exp M) (split (label c))"
  have h: "?h = part_matches (header_exp M) c"
    by (simp add: part_matches_def list_ex_iff)
  show ?case
  proof (cases "truthy_flag p")
    case True
    with Cons.prems show ?thesis by simp
  next
    case False
    show ?thesis
    proof (cases ?h)
      case nomatch: False
      then have step: "pcoded_headers M content (map label (c # cs)) p
                         = pcoded_headers M content (map label cs) p"
        using False by (simp add: Let_def)
      from Cons.IH [OF sub Cons.prems(2)] step nomatch h show ?thesis
        by auto
    next
      case True
      define b where "b = mostly (pcode_exp M) (text_values c)"
      define p1 where "p1 = (if b then Some True else p)"
      have col: "pcoded_column M c = Inr b"
        using assms(2,3) cin by (simp add: b_def pcoded_column_text)
      have step: "pcoded_headers M content (map label (c # cs)) p
                    = pcoded_headers M content (map label cs) p1"
        using False True col getitem_distinct [OF assms(1) cin]
        by (simp add: Let_def p1_def)
      have nf: "p1 \<noteq> Some False"
        using Cons.prems(2) by (simp add: p1_def)
      from Cons.IH [OF sub nf] obtain p' where
        r: "pcoded_headers M content (map label cs) p1 = Inr p'" and n: "p' \<noteq> Some False"
        and t: "truthy_flag p' =
           (truthy_flag p1 \<or> (\<exists>c\<in>set cs. part_matches (header_exp M) c
                                          \<and> mostly (pcode_exp M) (text_values c)))"
        by blast
      have "truthy_flag p' =
           (truthy_flag p \<or> (\<exists>c\<in>set (c # cs). part_matches (header_exp M) c
                                          \<and> mostly (pcode_exp M) (text_values c)))"
        using t True h by (auto simp add: p1_def b_def)
      with r n step show ?thesis by simp
    qed
  qed
qed

lemma pcoded_samples_spec:
  assumes acc: "\<forall>column. list_all is_str column \<longrightarrow> str_accessor M column"
  shows "\<forall>content\<in>snd ` set contents.
      distinct (map label content) \<and> (\<forall>c\<in>set (select_dtypes content). text_valued c)
   \<Longrightarrow> p \<noteq> Some False \<Longrightarrow>
     \<exists>p'. pcoded_samples M contents p = Inr p'
       \<and> p' \<noteq> Some False
       \<and> truthy_flag p' =
           (truthy_flag p \<or> (\<exists>content\<in>snd ` set contents. \<exists>c\<in>set content. pcode_column M c))"
proof (induction contents arbitrary: p)
  case Nil
  then show ?case by simp
next
  case (Cons kc rest)
  obtain key content where kc: "kc = (key, content)" by (cases kc)
  from Cons.prems(1) kc have d: "distinct (map label (select_dtypes content))"
    and tv: "\<forall>c\<in>set (select_dtypes content). text_valued c"
    and dr: "\<forall>content\<in>snd ` set rest.
      distinct (map label content) \<and> (\<forall>c\<in>set (select_dtypes content). text_valued c)"
    by (auto simp add: distinct_select_dtypes)
  have sel: "(\<exists>c\<in>set (select_dtypes content). part_matches (header_exp M) c
                                          \<and> mostly (pcode_exp M) (text_values c))
              = (\<exists>c\<in>set content. pcode_column M c)"
    by (auto simp add: select_dtypes_def pcode_column_def)
  show ?case
  proof (cases "truthy_flag p")
    case True
    with Cons.prems kc show ?thesis by simp
  next
    case False
    from pcoded_headers_spec [OF d tv acc, where cs = "select_dtypes content" and p = p]
      Cons.prems(2) sel
    obtain p1 where
      h: "pcoded_headers M (select_dtypes content) (map label (select_dtypes content)) p = Inr p1"
      and n: "p1 \<noteq> Some False"
      and t: "truthy_flag p1 = (truthy_flag p \<or> (\<exists>c\<in>set content. pcode_column M c))"
      by auto
    from Cons.IH [OF dr n] obtain p' where
      r: "pcoded_samples M rest p1 = Inr p'" and n': "p' \<noteq> Some False"
      and t': "truthy_flag p' =
           (truthy_flag p1 \<or> (\<exists>content\<in>snd ` set rest. \<exists>c\<in>set content. pcode_column M c))"
      by blast
    have "pcoded_samples M (kc # rest) p = Inr p'"
      using False kc h r by (simp add: Let_def)
    moreover have "truthy_flag p' =
           (truthy_flag p \<or> (\<exists>content\<in>snd ` set (kc # rest). \<exists>c\<in>set content. pcode_column M c))"
      using t t' kc by auto
    ultimately show ?thesis using n' by blast
  qed
qed

lemma check_pcoded_text_columns:
  assumes "\<forall>content\<in>snd ` set contents.
      distinct (map label content) \<and> (\<forall>c\<in>set (select_dtypes content). text_valued c)"
    and "\<forall>column. list_all is_str column \<longrightarrow> str_accessor M column"
  shows "(check_pcoded M contents = Inr (Some True)) =
           (\<exists>content\<in>snd ` set contents. \<exists>c\<in>set content. pcode_column M c)
         \<and> (check_pcoded M contents = Inr (Some True) \<or> check_pcoded M contents = Inr None)"
proof -
  from pcoded_samples_spec [OF assms(2) assms(1), where p = None]
  obtain p' where r: "check_pcoded M contents = Inr p'" and n: "p' \<noteq> Some False"
    and t: "truthy_flag p' = (\<exists>content\<in>snd ` set contents. \<exists>c\<in>set content. pcode_column M c)"
    by (auto simp add: check_pcoded_def)
  from flag_cases [OF n] r t show ?thesis by auto
qed

text \<open>
  C1. The claim is that a pcode header with at least one matching value and at most
  five other values that are not missing makes \<open>check_pcoded\<close> return \<open>True\<close>. The
  object column \<open>ADM2PCODE\<close> below has twenty values, eighteen of which match and two of
  which are numbers: \<open>check_pcoded\<close> returns \<open>None\<close>, since \<open>str.match\<close> gives \<open>NaN\<close> for
  the numbers and the sum is \<open>NaN\<close>. With two strings in place of the numbers it
  returns \<open>True\<close>, and \<open>check_pcoded_text_columns\<close> above shows that on text valued
  columns with unique labels the claim holds throughout.
\<close>

theorem check_pcoded_rejects_number_among_codes:
  "dtype (noisy_codes ! 0) = DObject
   \<and> list_ex (header_exp ken_matchers) (split (label (noisy_codes ! 0)))
   \<and> length (dropna (noisy_codes ! 0)) = 20
   \<and> length (filter (\<lambda>x. str_match (pcode_exp ken_matchers) x = Some True)
               (dropna (noisy_codes ! 0))) = 18
   \<and> check_pcoded ken_matchers [(''u0'', noisy_codes)] = Inr None
   \<and> check_pcoded ken_matchers [(''u0'', text_noisy_codes)] = Inr (Some True)"
  by code_simp

section \<open>The header normalizer\<close>

subsection \<open>A tag row at index 0\<close>

text \<open>
  Whatever row 0 is, when none of the rows 1 to 9 is a tag row the scan ends with an
  index that the test \<open>if hxlrow\<close> takes for no row.
\<close>

lemma hxl_scan_row0_ignored:
  "\<not> truthy_idx hxlrow \<Longrightarrow>
   \<forall>j. max 1 i \<le> j \<and> j < min 10 (nrows df) \<longrightarrow> \<not> list_all id (hxltags df j)
     \<Longrightarrow> \<not> truthy_idx (hxl_scan df i hxlrow)"
proof (induction "10 - i" arbitrary: i hxlrow)
  case 0
  then show ?case by (simp add: hxl_scan.simps)
next
  case (Suc k)
  show ?case
  proof (cases "i < 10 \<and> i < nrows df")
    case False
    with Suc.prems(1) show ?thesis by (auto simp add: hxl_scan.simps)
  next
    case True
    define h where "h = (if list_all id (hxltags df i) then Some i else hxlrow)"
    have nt: "\<not> truthy_idx h"
    proof (cases "i = 0")
      case True
      with Suc.prems(1) show ?thesis by (simp add: h_def)
    next
      case False
      with True Suc.prems(2) have "\<not> list_all id (hxltags df i)" by simp
      with Suc.prems(1) show ?thesis by (simp add: h_def)
    qed
    have "\<not> truthy_idx (hxl_scan df (i + 1) h)"
    proof (rule Suc.hyps(1))
      show "k = 10 - (i + 1)" using Suc.hyps(2) by simp
      show "\<not> truthy_idx h" by (rule nt)
      show "\<forall>j. max 1 (i + 1) \<le> j \<and> j < min 10 (nrows df) \<longrightarrow> \<not> list_all id (hxltags df j)"
        using Suc.prems(2) by simp
    qed
    with True Suc.prems(1) show ?thesis
      by (subst hxl_scan.simps) (simp add: h_def)
  qed
qed

text \<open>
  A tag row at index 1 is used: the labels are joined with the cells down to it and the
  data starts under it. A missing cell above it is truthy and no string, so the join
  raises.
\<close>

lemma parse_tabular_tag_row_1:
  "parse_tabular tagged_second ''csv'' =
     Inr [\<lparr>label = ''Code||Admin code||#adm1+code'', dtype = DObject, cells = [Str ''KEN001'']\<rparr>,
          \<lparr>label = ''Admin name||#adm1+name'', dtype = DObject, cells = [Str ''Nairobi'']\<rparr>]
   \<and> parse_tabular tagged_second_gap ''csv'' = Inl TypeError"
  by code_simp

text \<open>
  C2. The claim is that the first tag row among rows 0 to 9 is used, also at index 0.
  In \<open>tagged_first\<close> row 0 is a tag row and the scan ends with \<open>hxlrow = 0\<close>; the
  tests \<open>not hxlrow\<close> and \<open>if hxlrow\<close> take that for no tag row. As csv the table comes
  back unchanged, the tag row still its first data row, and as xlsx the labels are
  joined with the first three rows, tags and data alike, and no data row is left. The
  claim asks for the labels \<open>Code||#adm1+code\<close> and \<open>Name||#adm1+name\<close> over the two data
  rows.
\<close>

theorem parse_tabular_ignores_tag_row_0:
  "list_all id (hxltags tagged_first 0)
   \<and> hxl_scan tagged_first 0 None = Some 0
   \<and> parse_tabular tagged_first ''csv'' = Inr tagged_first
   \<and> parse_tabular tagged_first ''xlsx'' =
       Inr [\<lparr>label = ''Code||#adm1+code||KEN001||KEN002'', dtype = DObject, cells = []\<rparr>,
            \<lparr>label = ''Name||#adm1+name||Nairobi||Mombasa'', dtype = DObject, cells = []\<rparr>]"
  by code_simp

subsection \<open>Normalizing twice\<close>










end
